theory Spec2Isabelle
  imports Complex_Main
begin

section \<open>Whitepaper Rewriter: the batch revision subsystem\<close>

text \<open>
  The development embeds the spreadsheet-bound script \<^verbatim>\<open>src/gas/Code.ts\<close> (version
  detection, row collection, chunking, the per-batch loop with its error handling, the
  diff used for highlighting), the schema builder and the row-index fix-up of
  \<^verbatim>\<open>backend/src/services/openai.ts\<close>, the header validation of
  \<^verbatim>\<open>backend/src/routes/schema.ts\<close>, and the longest-common-subsequence diff of the
  script printed in the implementation guide.

  Strings are lists of characters, one \<^typ>\<open>char\<close> per code unit of the script's strings
  (code units above 255 are outside the model; the diff functions work on lists over any
  character type). Cell values are strings (the grid is read pre-stringified). Numbers
  that the script only counts, indexes or increments are \<^typ>\<open>nat\<close> or \<^typ>\<open>int\<close>. Calls
  into the spreadsheet (appending a row, formatting, logging) are taken to succeed.
\<close>

subsection \<open>Chunking (\<^verbatim>\<open>chunkArray\<close>)\<close>

text \<open>\<^verbatim>\<open>array.slice(i, j)\<close> for \<open>0 \<le> i \<le> j\<close>: the elements at positions \<open>i\<close> up to
  \<open>j - 1\<close>, cut at the end of the array.\<close>

definition slice :: "'a list \<Rightarrow> nat \<Rightarrow> nat \<Rightarrow> 'a list" where
  "slice xs i j = take (j - i) (drop i xs)"

text \<open>
  \<^verbatim>\<open>for (let i = 0; i < array.length; i += size) chunks.push(array.slice(i, i + size))\<close>.
  With \<open>size = 0\<close> the loop never ends, so the loop is a partial function: not returning
  is the value \<open>None\<close>.
\<close>

partial_function (option) chunkLoop ::
  "'a list \<Rightarrow> nat \<Rightarrow> nat \<Rightarrow> 'a list list \<Rightarrow> 'a list list option" where
  "chunkLoop array sz i chunks =
     (if i < length array
      then chunkLoop array sz (i + sz) (chunks @ [slice array i (i + sz)])
      else Some chunks)"

declare chunkLoop.simps [code]

definition chunkArray :: "'a list \<Rightarrow> nat \<Rightarrow> 'a list list option" where
  "chunkArray array sz = chunkLoop array sz 0 []"

text \<open>The closed form of what the loop returns, used to reason about it.\<close>

function chunks :: "nat \<Rightarrow> 'a list \<Rightarrow> 'a list list" where
  "chunks B xs = (if xs = [] \<or> B = 0 then [] else take B xs # chunks B (drop B xs))"
  by pat_completeness auto
termination
  by (relation "measure (\<lambda>(B, xs). length xs)") auto

declare chunks.simps [simp del]

subsection \<open>Strings and numbers of the script\<close>

text \<open>\<^verbatim>\<open>String.prototype.trim\<close>: white space and line terminators are removed at both ends.
  Of the characters it removes, those a \<^typ>\<open>char\<close> can hold are tab, line feed, vertical
  tab, form feed, carriage return, space and no-break space.\<close>

definition isWhiteSpace :: "char \<Rightarrow> bool" where
  "isWhiteSpace c \<longleftrightarrow> (of_char c :: nat) \<in> {9, 10, 11, 12, 13, 32, 160}"

definition trim :: "string \<Rightarrow> string" where
  "trim s = rev (dropWhile isWhiteSpace (rev (dropWhile isWhiteSpace s)))"

text \<open>A whole number interpolated into a template string: its decimal digits.\<close>

definition digitChar :: "nat \<Rightarrow> char" where
  "digitChar d = ''0123456789'' ! (d mod 10)"

function toString :: "nat \<Rightarrow> string" where
  "toString n = (if n < 10 then [digitChar n] else toString (n div 10) @ [digitChar n])"
  by pat_completeness auto
termination
  by (relation "measure (\<lambda>n. n)") auto

declare toString.simps [simp del]

definition toStringInt :: "int \<Rightarrow> string" where
  "toStringInt z = (if z < 0 then CHR ''-'' # toString (nat (- z)) else toString (nat z))"

text \<open>The character class \<^verbatim>\<open>\d\<close> and \<^verbatim>\<open>parseInt\<close> on a string of digits. The
  script's numbers are exact below \<open>2 ^ 53\<close>; the model counts without a bound.\<close>

definition isDigit :: "char \<Rightarrow> bool" where
  "isDigit c \<longleftrightarrow> c \<in> set ''0123456789''"

definition digitVal :: "char \<Rightarrow> nat" where
  "digitVal c = of_char c - 48"

definition parseInt :: "string \<Rightarrow> nat" where
  "parseInt ds = foldl (\<lambda>acc c. 10 * acc + digitVal c) 0 ds"

text \<open>\<^verbatim>\<open>name.match(/^VER(\d+)$/i)\<close>: the digits captured by the group, or no match.
  The flag \<^verbatim>\<open>i\<close> lets each of the three letters be upper or lower case.\<close>

definition matchVER :: "string \<Rightarrow> string option" where
  "matchVER name =
     (case name of
        c1 # c2 # c3 # ds \<Rightarrow>
          if c1 \<in> {CHR ''V'', CHR ''v''} \<and> c2 \<in> {CHR ''E'', CHR ''e''}
             \<and> c3 \<in> {CHR ''R'', CHR ''r''} \<and> ds \<noteq> [] \<and> list_all isDigit ds
          then Some ds else None
      | _ \<Rightarrow> None)"

text \<open>Reading an array past its end gives \<^verbatim>\<open>undefined\<close>; \<^verbatim>\<open>x?.toString() || ''\<close> turns
  that, and the empty string, into the empty string.\<close>

definition cellAt :: "string list \<Rightarrow> nat \<Rightarrow> string" where
  "cellAt r idx = (if idx < length r then r ! idx else [])"

text \<open>\<^verbatim>\<open>obj[key] = value\<close> on an object created by a literal: an existing own key keeps
  its place and takes the new value, a new key is added last, and the key
  \<^verbatim>\<open>__proto__\<close> creates no own property.\<close>

fun setProp :: "string \<Rightarrow> 'v \<Rightarrow> (string \<times> 'v) list \<Rightarrow> (string \<times> 'v) list" where
  "setProp k v [] = [(k, v)]"
| "setProp k v ((k', v') # ps) =
     (if k = k' then (k, v) # ps else (k', v') # setProp k v ps)"

definition assign :: "string \<Rightarrow> 'v \<Rightarrow> (string \<times> 'v) list \<Rightarrow> (string \<times> 'v) list" where
  "assign k v obj = (if k = ''__proto__'' then obj else setProp k v obj)"

subsection \<open>Version resolution (\<^verbatim>\<open>detectSourceSheet\<close>, \<^verbatim>\<open>generateNextVersion\<close>)\<close>

text \<open>A sheet is identified by its name. The first loop of \<^verbatim>\<open>detectSourceSheet\<close> carries
  \<^verbatim>\<open>highestVer\<close>, \<^verbatim>\<open>highestVerSheet\<close> and \<^verbatim>\<open>whitepaperPlansSheet\<close>.\<close>

definition detectStep ::
  "nat \<times> string option \<times> string option \<Rightarrow> string \<Rightarrow> nat \<times> string option \<times> string option" where
  "detectStep st name =
     (case st of (highestVer, highestVerSheet, whitepaperPlansSheet) \<Rightarrow>
        let (hv, hs) =
              (case matchVER name of
                 Some ds \<Rightarrow>
                   if parseInt ds > highestVer then (parseInt ds, Some name)
                   else (highestVer, highestVerSheet)
               | None \<Rightarrow> (highestVer, highestVerSheet));
            wp = (if name = ''Whitepaper Plans'' then Some name else whitepaperPlansSheet)
        in (hv, hs, wp))"

text \<open>The result \<open>None\<close> is \<^verbatim>\<open>sheets[0]\<close> of a workbook without sheets.\<close>

definition detectSourceSheet :: "string list \<Rightarrow> string option" where
  "detectSourceSheet sheets =
     (case foldl detectStep (0, None, None) sheets of
        (highestVer, highestVerSheet, whitepaperPlansSheet) \<Rightarrow>
          (case highestVerSheet of
             Some s \<Rightarrow> Some s
           | None \<Rightarrow>
              (case whitepaperPlansSheet of
                 Some s \<Rightarrow> Some s
               | None \<Rightarrow>
                  (case find (\<lambda>n. n = ''VER1'') sheets of
                     Some s \<Rightarrow> Some s
                   | None \<Rightarrow>
                      (case find (\<lambda>n. n \<noteq> ''Backlog'') sheets of
                         Some s \<Rightarrow> Some s
                       | None \<Rightarrow> (case sheets of [] \<Rightarrow> None | s # _ \<Rightarrow> Some s))))))"

definition generateNextVersion :: "string \<Rightarrow> string" where
  "generateNextVersion currentName =
     (case matchVER currentName of
        Some ds \<Rightarrow> ''VER'' @ toString (parseInt ds + 1)
      | None \<Rightarrow> ''VER2'')"

subsection \<open>The diff of the script (\<^verbatim>\<open>computeSimpleDiff\<close>, \<^verbatim>\<open>createDiffRichText\<close>)\<close>

record segment =
  seg_type :: string
  seg_start :: nat
  seg_end :: nat

definition computeSimpleDiff :: "'a list \<Rightarrow> 'a list \<Rightarrow> segment list" where
  "computeSimpleDiff str1 str2 =
     (if str1 = str2 then []
      else [\<lparr>seg_type = ''insert'', seg_start = 0, seg_end = length str2\<rparr>])"

text \<open>A rich text value: the text and the character ranges set in the red style.\<close>

record 'a rich_text =
  rt_text :: "'a list"
  rt_red :: "(nat \<times> nat) list"

definition createDiffRichText :: "'a list \<Rightarrow> 'a list \<Rightarrow> 'a rich_text" where
  "createDiffRichText original revised =
     \<lparr>rt_text = revised,
      rt_red = map (\<lambda>s. (seg_start s, seg_end s))
                 (filter (\<lambda>s. seg_type s = ''insert'') (computeSimpleDiff original revised))\<rparr>"

subsection \<open>The diff of the implementation guide (\<^verbatim>\<open>longestCommonSubsequence\<close>)\<close>

text \<open>The script printed in the implementation guide fills a table \<^verbatim>\<open>dp[i][j]\<close> with two
  nested loops; \<open>dp\<close> is the value the loops store at \<open>(i, j)\<close>, for \<open>i\<close> up to the length
  of the first string and \<open>j\<close> up to the length of the second.\<close>

fun dp :: "'a list \<Rightarrow> 'a list \<Rightarrow> nat \<Rightarrow> nat \<Rightarrow> nat" where
  "dp str1 str2 0 j = 0"
| "dp str1 str2 (Suc i) 0 = 0"
| "dp str1 str2 (Suc i) (Suc j) =
     (if str1 ! i = str2 ! j then dp str1 str2 i j + 1
      else max (dp str1 str2 i (Suc j)) (dp str1 str2 (Suc i) j))"

text \<open>The walk back from \<open>(m, n)\<close>, prepending the common characters.\<close>

function lcsWalk :: "'a list \<Rightarrow> 'a list \<Rightarrow> nat \<Rightarrow> nat \<Rightarrow> 'a list \<Rightarrow> 'a list" where
  "lcsWalk str1 str2 i j lcs =
     (if i > 0 \<and> j > 0 then
        (if str1 ! (i - 1) = str2 ! (j - 1)
         then lcsWalk str1 str2 (i - 1) (j - 1) (str1 ! (i - 1) # lcs)
         else if dp str1 str2 (i - 1) j > dp str1 str2 i (j - 1)
         then lcsWalk str1 str2 (i - 1) j lcs
         else lcsWalk str1 str2 i (j - 1) lcs)
      else lcs)"
  by pat_completeness auto
termination
  by (relation "measure (\<lambda>(str1, str2, i, j, lcs). i + j)") auto

declare lcsWalk.simps [simp del]

definition longestCommonSubsequence :: "'a list \<Rightarrow> 'a list \<Rightarrow> 'a list" where
  "longestCommonSubsequence str1 str2 = lcsWalk str1 str2 (length str1) (length str2) []"

text \<open>The replay of \<^verbatim>\<open>createDiffRichText\<close> in the guide. The inner loop on the new text
  styles one character at a time until it meets the next common character; the final
  loop styles what is left.\<close>

function styleUntil ::
  "'a list \<Rightarrow> 'a \<Rightarrow> nat \<Rightarrow> (nat \<times> nat) list \<Rightarrow> nat \<times> (nat \<times> nat) list" where
  "styleUntil newText c newIdx red =
     (if newIdx < length newText \<and> newText ! newIdx \<noteq> c
      then styleUntil newText c (newIdx + 1) (red @ [(newIdx, newIdx + 1)])
      else (newIdx, red))"
  by pat_completeness auto
termination
  by (relation "measure (\<lambda>(newText, c, newIdx, red). length newText - newIdx)") auto

declare styleUntil.simps [simp del]

function skipUntil :: "'a list \<Rightarrow> 'a \<Rightarrow> nat \<Rightarrow> nat" where
  "skipUntil oldText c oldIdx =
     (if oldIdx < length oldText \<and> oldText ! oldIdx \<noteq> c
      then skipUntil oldText c (oldIdx + 1) else oldIdx)"
  by pat_completeness auto
termination
  by (relation "measure (\<lambda>(oldText, c, oldIdx). length oldText - oldIdx)") auto

declare skipUntil.simps [simp del]

function styleRest :: "'a list \<Rightarrow> nat \<Rightarrow> (nat \<times> nat) list \<Rightarrow> (nat \<times> nat) list" where
  "styleRest newText newIdx red =
     (if newIdx < length newText
      then styleRest newText (newIdx + 1) (red @ [(newIdx, newIdx + 1)])
      else red)"
  by pat_completeness auto
termination
  by (relation "measure (\<lambda>(newText, newIdx, red). length newText - newIdx)") auto

declare styleRest.simps [simp del]

fun replay ::
  "'a list \<Rightarrow> 'a list \<Rightarrow> 'a list \<Rightarrow> nat \<Rightarrow> nat \<Rightarrow> (nat \<times> nat) list
     \<Rightarrow> (nat \<times> nat) list" where
  "replay oldText newText [] oldIdx newIdx red = styleRest newText newIdx red"
| "replay oldText newText (c # lcs) oldIdx newIdx red =
     (let oldIdx' = skipUntil oldText c oldIdx;
          (newIdx', red') = styleUntil newText c newIdx red
      in replay oldText newText lcs (oldIdx' + 1) (newIdx' + 1) red')"

definition createDiffRichText_lcs :: "'a list \<Rightarrow> 'a list \<Rightarrow> 'a rich_text" where
  "createDiffRichText_lcs oldText newText =
     (if oldText = newText then \<lparr>rt_text = newText, rt_red = []\<rparr>
      else \<lparr>rt_text = newText,
            rt_red = replay oldText newText (longestCommonSubsequence oldText newText) 0 0 []\<rparr>)"

subsection \<open>The revision log (\<^verbatim>\<open>logToBacklog\<close>)\<close>

text \<open>One row of the Backlog sheet. The time stamp and the serialised detail payload,
  which the script never reads back, are left out.\<close>

record log_entry =
  entry_type :: string
  batchIndex :: int
  status :: string
  message :: string

definition logToBacklog ::
  "string \<Rightarrow> int \<Rightarrow> string \<Rightarrow> string \<Rightarrow> log_entry list \<Rightarrow> log_entry list" where
  "logToBacklog t b s m backlog =
     backlog @ [\<lparr>entry_type = t, batchIndex = b, status = s, message = m\<rparr>]"

subsection \<open>The call to the backend (\<^verbatim>\<open>callBackendAPIBatch\<close>)\<close>

record commented_row =
  rowIndex :: nat
  row :: "string list"
  comment :: string

text \<open>One element of \<^verbatim>\<open>data.rows\<close> in the response: its \<^verbatim>\<open>row_index\<close> and its other
  fields, strings by the schema of the backend.\<close>

record result_row =
  row_index :: int
  row_fields :: "(string \<times> string) list"

record request_row =
  req_row_index :: int
  req_data :: "(string \<times> string) list"
  req_comment :: string

record payload =
  batch_of :: "request_row list"
  headers_of :: "string list"

text \<open>\<^verbatim>\<open>UrlFetchApp.fetch\<close> with \<^verbatim>\<open>muteHttpExceptions\<close>: it raises (transport error, time
  out) or returns a status code and a text.\<close>

datatype fetch_outcome = FetchThrows string | FetchResponse int string

text \<open>The value of \<^verbatim>\<open>result.data.rows\<close>: an array, or a value that \<^verbatim>\<open>for ... of\<close> cannot
  iterate (with the message of the TypeError the loop then raises). An element of the
  array is a row, or \<^verbatim>\<open>null\<close> (the element \<open>None\<close>), on which reading \<^verbatim>\<open>row_index\<close> raises a
  TypeError.\<close>

datatype rows_value = NotIterable string | RowList "result_row option list"

text \<open>What \<^verbatim>\<open>JSON.parse\<close> gives for a body that parses: \<^verbatim>\<open>result.success\<close>, and
  \<^verbatim>\<open>result.data.rows\<close> when \<^verbatim>\<open>result.data.rows.length\<close> and
  \<^verbatim>\<open>result.data.metadata.tokensUsed\<close> can be read (\<open>Inl\<close>: the message of the TypeError
  that reading them raises).\<close>

record api_result =
  success :: bool
  data_rows :: "string + rows_value"

text \<open>The two calls the script makes out of the spreadsheet: the request, and the
  parser applied to the response text (\<open>Inl\<close>: the message of the error raised by
  parsing the text or by reading \<^verbatim>\<open>result.success\<close>).\<close>

record backend =
  fetch :: "payload \<Rightarrow> fetch_outcome"
  JSON_parse :: "string \<Rightarrow> string + api_result"

definition formatRow :: "string list \<Rightarrow> commented_row \<Rightarrow> request_row" where
  "formatRow headers item =
     \<lparr>req_row_index = int (rowIndex item),
      req_data = foldl (\<lambda>data (header, idx). assign header (cellAt (row item) idx) data) []
                   (zip headers [0..<length headers]),
      req_comment = comment item\<rparr>"

definition callBackendAPIBatch ::
  "backend \<Rightarrow> commented_row list \<Rightarrow> string list \<Rightarrow> log_entry list
     \<Rightarrow> (string + rows_value) \<times> log_entry list" where
  "callBackendAPIBatch be batch headers backlog =
     (let payload = \<lparr>batch_of = map (formatRow headers) batch, headers_of = headers\<rparr>;
          backlog1 = logToBacklog ''API_REQUEST'' (- 1) ''SENDING''
                       ''Sending request to Backend API'' backlog
      in case fetch be payload of
           FetchThrows m \<Rightarrow> (Inl m, backlog1)
         | FetchResponse statusCode responseText \<Rightarrow>
             if statusCode \<ge> 300
             then (Inl (''Backend API error ('' @ toStringInt statusCode @ ''): '' @ responseText),
                   backlog1)
             else (case JSON_parse be responseText of
                     Inl m \<Rightarrow> (Inl m, backlog1)
                   | Inr result \<Rightarrow>
                       if \<not> success result then (Inl ''Backend API returned error'', backlog1)
                       else (case data_rows result of
                               Inl m \<Rightarrow> (Inl m, backlog1)
                             | Inr rows \<Rightarrow>
                                 (Inr rows,
                                  logToBacklog ''API_RESPONSE'' (- 1) ''SUCCESS''
                                    ''Received response from Backend API'' backlog1))))"

subsection \<open>The main function (\<^verbatim>\<open>rewriteAllCommentedRows\<close>)\<close>

definition BATCH_SIZE :: nat where
  "BATCH_SIZE = 5"

text \<open>A highlighted cell of the destination sheet: its row and column, numbered from 1,
  and the rich text value set there.\<close>

record highlight =
  hl_row :: nat
  hl_col :: nat
  hl_value :: "char rich_text"

text \<open>The state of a run: the rows appended to the destination sheet (the header
  first), the highlighted cells, the Backlog sheet and the three counters.
  \<^verbatim>\<open>destSheet.getLastRow()\<close> is the number of rows appended so far (the row appended last
  is taken to hold a value).\<close>

record run_state =
  dest :: "string list list"
  highlights :: "highlight list"
  backlog :: "log_entry list"
  totalProcessed :: nat
  totalSuccess :: nat
  totalFailed :: nat

text \<open>\<^verbatim>\<open>sheet.getRange(r, 1, 1, colCount).getValues()[0]\<close>: the first \<open>colCount\<close> cells of
  sheet row \<open>r\<close> (rows are numbered from 1), empty where the sheet has no value.\<close>

definition getRangeRow :: "string list list \<Rightarrow> nat \<Rightarrow> nat \<Rightarrow> string list" where
  "getRangeRow sheet r colCount =
     map (cellAt (if 1 \<le> r \<and> r \<le> length sheet then sheet ! (r - 1) else [])) [0..<colCount]"

definition applyDiffHighlighting ::
  "string list list \<Rightarrow> string list list \<Rightarrow> nat \<Rightarrow> nat \<Rightarrow> nat \<Rightarrow> highlight list" where
  "applyDiffHighlighting sourceSheet destSheet sourceRow destRow colCount =
     (let sourceValues = getRangeRow sourceSheet sourceRow colCount;
          destValues = getRangeRow destSheet destRow colCount
      in concat (map (\<lambda>col.
           let originalText = cellAt sourceValues col;
               revisedText = cellAt destValues col
           in if originalText \<noteq> revisedText
              then [\<lparr>hl_row = destRow, hl_col = col + 1,
                     hl_value = createDiffRichText originalText revisedText\<rparr>]
              else []) [0..<colCount]))"

text \<open>\<^verbatim>\<open>revisedRow[key]\<close>: the key \<^verbatim>\<open>row_index\<close> reads the number, any other key reads
  the field of that name, if there is one. A key that every object inherits reads a
  function in the script; the model reads it as any other key, and the statements about
  cell values leave these keys out.\<close>

definition objectPrototypeKeys :: "string list" where
  "objectPrototypeKeys =
     [''constructor'', ''hasOwnProperty'', ''isPrototypeOf'', ''propertyIsEnumerable'',
      ''toLocaleString'', ''toString'', ''valueOf'', ''__proto__'', ''__defineGetter__'',
      ''__defineSetter__'', ''__lookupGetter__'', ''__lookupSetter__'']"

definition getField :: "result_row \<Rightarrow> string \<Rightarrow> string option" where
  "getField revisedRow key =
     (if key = ''row_index'' then Some (toStringInt (row_index revisedRow))
      else map_of (row_fields revisedRow) key)"

definition buildNewRow :: "string list \<Rightarrow> result_row \<Rightarrow> string list" where
  "buildNewRow headers revisedRow =
     map (\<lambda>header. case getField revisedRow (trim header) of Some v \<Rightarrow> v | None \<Rightarrow> []) headers"

text \<open>The body of the loop over \<^verbatim>\<open>batchResult.rows\<close>.\<close>

definition applyResult ::
  "string list list \<Rightarrow> string list \<Rightarrow> commented_row list \<Rightarrow> run_state \<Rightarrow> result_row \<Rightarrow> run_state" where
  "applyResult sourceSheet headers batch st revisedRow =
     (case find (\<lambda>b. int (rowIndex b) = row_index revisedRow) batch of
        None \<Rightarrow> st
      | Some originalRowData \<Rightarrow>
          let destSheet = dest st @ [buildNewRow headers revisedRow];
              destRowIndex = length destSheet
          in st\<lparr>dest := destSheet,
                highlights := highlights st @
                  applyDiffHighlighting sourceSheet destSheet (rowIndex originalRowData)
                    destRowIndex (length headers),
                totalSuccess := totalSuccess st + 1\<rparr>)"

text \<open>The loop over \<^verbatim>\<open>batchResult.rows\<close>. It stops at a \<^verbatim>\<open>null\<close> element with the TypeError
  that reading \<^verbatim>\<open>revisedRow.row_index\<close> raises; the rows applied before it stay applied.
  The result is the message of the error, if any, and the state reached.\<close>

definition nullRowMessage :: string where
  "nullRowMessage =
     ''Cannot read properties of null (reading '' @ [CHR 0x27] @ ''row_index''
       @ [CHR 0x27] @ '')''"

fun applyResults ::
  "string list list \<Rightarrow> string list \<Rightarrow> commented_row list \<Rightarrow> run_state
     \<Rightarrow> result_row option list \<Rightarrow> string option \<times> run_state" where
  "applyResults sourceSheet headers batch st [] = (None, st)"
| "applyResults sourceSheet headers batch st (None # rest) = (Some nullRowMessage, st)"
| "applyResults sourceSheet headers batch st (Some revisedRow # rest) =
     applyResults sourceSheet headers batch
       (applyResult sourceSheet headers batch st revisedRow) rest"

text \<open>The \<^verbatim>\<open>catch\<close> block of a batch, entered with the message of the error and the state
  reached when it was raised.\<close>

definition catchBatch :: "nat \<Rightarrow> commented_row list \<Rightarrow> string \<Rightarrow> run_state \<Rightarrow> run_state" where
  "catchBatch bi batch m st =
     st\<lparr>backlog := logToBacklog ''ERROR'' (int bi) ''FAILED''
                    (''Batch failed: '' @ m) (backlog st),
        dest := dest st @ map row batch,
        totalFailed := totalFailed st + length batch,
        totalProcessed := totalProcessed st + length batch\<rparr>"

text \<open>The body of the loop over the batches. The \<^verbatim>\<open>try\<close> block holds the call, the log
  entry of the response and the loop over the returned rows; an error raised by any of
  them enters the \<^verbatim>\<open>catch\<close> block.\<close>

definition processBatch ::
  "backend \<Rightarrow> string list list \<Rightarrow> string list \<Rightarrow> nat \<Rightarrow> nat \<Rightarrow> commented_row list
     \<Rightarrow> run_state \<Rightarrow> run_state" where
  "processBatch be sourceSheet headers nBatches bi batch st =
     (let st1 = st\<lparr>backlog := logToBacklog ''INFO'' (int bi) ''BATCH_START''
                   (''Processing batch '' @ toString (bi + 1) @ ''/'' @ toString nBatches)
                   (backlog st)\<rparr>
      in case callBackendAPIBatch be batch headers (backlog st1) of
           (Inr batchResult, backlog2) \<Rightarrow>
             let st2 = st1\<lparr>backlog := logToBacklog ''API_RESPONSE'' (int bi) ''SUCCESS''
                            ''Batch processed successfully'' backlog2\<rparr>
             in (case batchResult of
                   NotIterable m \<Rightarrow> catchBatch bi batch m st2
                 | RowList rows \<Rightarrow>
                     (case applyResults sourceSheet headers batch st2 rows of
                        (None, st3) \<Rightarrow>
                          st3\<lparr>totalProcessed := totalProcessed st3 + length batch\<rparr>
                      | (Some m, st3) \<Rightarrow> catchBatch bi batch m st3))
         | (Inl m, backlog2) \<Rightarrow> catchBatch bi batch m (st1\<lparr>backlog := backlog2\<rparr>))"

fun batchLoop ::
  "backend \<Rightarrow> string list list \<Rightarrow> string list \<Rightarrow> nat \<Rightarrow> nat \<Rightarrow> commented_row list list
     \<Rightarrow> run_state \<Rightarrow> run_state" where
  "batchLoop be sourceSheet headers nBatches bi [] st = st"
| "batchLoop be sourceSheet headers nBatches bi (batch # rest) st =
     batchLoop be sourceSheet headers nBatches (bi + 1) rest
       (processBatch be sourceSheet headers nBatches bi batch st)"

text \<open>\<^verbatim>\<open>row[commentColIndex]\<close> with \<^verbatim>\<open>commentColIndex = headers.length - 1\<close>, and the test
  \<^verbatim>\<open>comment && comment.toString().trim() !== ''\<close> of steps 5 and 7.\<close>

definition commentCell :: "string list \<Rightarrow> string list \<Rightarrow> string" where
  "commentCell headers r = (if headers = [] then [] else cellAt r (length headers - 1))"

definition hasComment :: "string list \<Rightarrow> string list \<Rightarrow> bool" where
  "hasComment headers r \<longleftrightarrow> commentCell headers r \<noteq> [] \<and> trim (commentCell headers r) \<noteq> []"

definition collectCommentedRows :: "string list list \<Rightarrow> commented_row list" where
  "collectCommentedRows values =
     map (\<lambda>i. \<lparr>rowIndex = i + 1, row = values ! i,
               comment = trim (commentCell (hd values) (values ! i))\<rparr>)
       (filter (\<lambda>i. hasComment (hd values) (values ! i)) [1..<length values])"

definition copyUncommented :: "string list list \<Rightarrow> string list list" where
  "copyUncommented values =
     map (\<lambda>i. values ! i)
       (filter (\<lambda>i. \<not> hasComment (hd values) (values ! i)) [1..<length values])"

text \<open>The spreadsheet as the run meets it: the names of its sheets in order, the values of
  each sheet, and the grid size of the destination sheet before the clean-up of step 8.\<close>

record spreadsheet =
  sheets :: "string list"
  getValues :: "string \<Rightarrow> string list list"
  maxRows :: nat
  maxCols :: nat

definition initialState :: run_state where
  "initialState = \<lparr>dest = [], highlights = [], backlog = [],
                   totalProcessed = 0, totalSuccess = 0, totalFailed = 0\<rparr>"

definition info :: "string \<Rightarrow> string \<Rightarrow> run_state \<Rightarrow> run_state" where
  "info s m st = st\<lparr>backlog := logToBacklog ''INFO'' (- 1) s m (backlog st)\<rparr>"

definition fatal :: "string \<Rightarrow> run_state \<Rightarrow> (string option \<times> run_state) option" where
  "fatal m st =
     Some (Some m, st\<lparr>backlog := logToBacklog ''ERROR'' (- 1) ''FATAL''
                              (''Fatal error: '' @ m) (backlog st)\<rparr>)"

text \<open>Steps 3 to 8 on the values of the source sheet. The result is \<open>None\<close> when the run
  does not return, and otherwise the message of the error it raises, if any, with the
  final state.\<close>

definition reviseValues ::
  "backend \<Rightarrow> spreadsheet \<Rightarrow> string list list \<Rightarrow> run_state
     \<Rightarrow> (string option \<times> run_state) option" where
  "reviseValues be ss values st0 =
     (if length values = 0 then fatal ''Source sheet is empty'' st0
      else
        let headers = hd values;
            st1 = info ''HEADERS''
                    (''Headers copied ('' @ toString (length headers) @ '' columns)'')
                    (st0\<lparr>dest := dest st0 @ [headers]\<rparr>);
            commentedRows = collectCommentedRows values;
            st2 = info ''COLLECTED''
                    (''Found '' @ toString (length commentedRows) @ '' commented rows'') st1
        in case chunkArray commentedRows BATCH_SIZE of
             None \<Rightarrow> None
           | Some batches \<Rightarrow>
               let st3 = batchLoop be values headers (length batches) 0 batches st2;
                   st4 = st3\<lparr>dest := dest st3 @ copyUncommented values\<rparr>;
                   totalRows = length (dest st4);
                   st5 = (if maxRows ss > totalRows
                          then info ''CLEANUP'' ''Deleted empty rows'' st4 else st4);
                   st6 = (if maxCols ss > length headers
                          then info ''CLEANUP'' ''Deleted empty columns'' st5 else st5)
               in Some (None, info ''COMPLETED'' ''Rewrite process completed'' st6))"

definition rewriteAllCommentedRows ::
  "backend \<Rightarrow> spreadsheet \<Rightarrow> (string option \<times> run_state) option" where
  "rewriteAllCommentedRows be ss =
     (let st0 = info ''START'' ''Starting rewrite process'' initialState
      in case detectSourceSheet (sheets ss) of
           None \<Rightarrow> fatal ''Cannot read properties of undefined (reading getName)'' st0
         | Some sourceSheetName \<Rightarrow>
             let st1 = info ''DETECTED'' (''Source sheet: '' @ sourceSheetName) st0;
                 destSheetName = generateNextVersion sourceSheetName;
                 st2 = (if destSheetName \<in> set (sheets ss)
                        then info ''CLEARED''
                               (''Existing sheet '' @ destSheetName @ '' cleared'') st1
                        else info ''CREATED''
                               (''New sheet '' @ destSheetName @ '' created'') st1)
             in reviseValues be ss (getValues ss sourceSheetName) st2)"

subsection \<open>The backend: schema builder, header validation, row-index fix-up\<close>

datatype prop_type = TInteger | TString

text \<open>The schema of one element of \<^verbatim>\<open>rows\<close>, and the schema around it.\<close>

record row_schema =
  item_required :: "string list"
  item_additionalProperties :: bool
  item_properties :: "(string \<times> prop_type) list"

record batch_schema =
  required :: "string list"
  additionalProperties :: bool
  rows_items :: row_schema

text \<open>\<^verbatim>\<open>OpenAIService.generateSchema\<close>. Its \<^verbatim>\<open>try\<close> block makes no call that raises on a
  list of strings, so the \<^verbatim>\<open>catch\<close> is never entered; the result type keeps the two
  outcomes of the method apart.\<close>

definition generateSchema :: "string list \<Rightarrow> string + batch_schema" where
  "generateSchema headers =
     (let properties = foldl (\<lambda>ps header. assign header TString ps)
                         [(''row_index'', TInteger)] headers;
          requiredFields = [''row_index''] @ headers
      in Inr \<lparr>required = [''rows''], additionalProperties = False,
              rows_items = \<lparr>item_required = requiredFields,
                             item_additionalProperties = False,
                             item_properties = properties\<rparr>\<rparr>)"

text \<open>The request body fields the route of \<^verbatim>\<open>routes/schema.ts\<close> looks at.\<close>

datatype json =
    JUndefined | JNull | JBool bool | JNum int | JStr string
  | JArr "json list" | JObj "(string \<times> json) list"

datatype route_response =
    Rejected nat string
  | Generated batch_schema
  | Passed string

definition isNonEmptyString :: "json \<Rightarrow> bool" where
  "isNonEmptyString v = (case v of JStr s \<Rightarrow> s \<noteq> [] | _ \<Rightarrow> False)"

definition stringOf :: "json \<Rightarrow> string option" where
  "stringOf v = (case v of JStr s \<Rightarrow> Some s | _ \<Rightarrow> None)"

text \<open>\<^verbatim>\<open>schemaRouter.post('/generate')\<close>. The parameters beside the request body are what the
  collaborators of the route answer: whether both services are initialised, the answer
  of the usage check (\<open>Inl\<close>: it raised; \<open>Inr allowed\<close> otherwise), and the error that
  recording the usage raises, if any. An error raised on the way is passed to the error
  handler (\<open>Passed\<close>).\<close>

definition schemaGenerate ::
  "bool \<Rightarrow> (string + bool) \<Rightarrow> string option \<Rightarrow> json \<Rightarrow> json \<Rightarrow> route_response" where
  "schemaGenerate servicesReady usageCheck recordUsage userId headers =
     (if \<not> servicesReady then Rejected 503 ''SERVICE_UNAVAILABLE''
      else if \<not> isNonEmptyString userId then Rejected 400 ''INVALID_USER_ID''
      else (case headers of
              JArr hs \<Rightarrow>
                if length hs = 0 then Rejected 400 ''INVALID_HEADERS''
                else if \<not> list_all (\<lambda>h. stringOf h \<noteq> None) hs
                then Rejected 400 ''INVALID_HEADERS''
                else (case usageCheck of
                        Inl m \<Rightarrow> Passed m
                      | Inr allowed \<Rightarrow>
                          if \<not> allowed then Rejected 429 ''RATE_LIMIT_EXCEEDED''
                          else (case generateSchema (map (\<lambda>h. the (stringOf h)) hs) of
                                  Inl m \<Rightarrow> Passed m
                                | Inr schema \<Rightarrow>
                                    (case recordUsage of
                                       Some m \<Rightarrow> Passed m
                                     | None \<Rightarrow> Generated schema)))
            | _ \<Rightarrow> Rejected 400 ''INVALID_HEADERS''))"

text \<open>The end of \<^verbatim>\<open>OpenAIService.rewriteBatch\<close>: \<^verbatim>\<open>parsed.rows.map\<close> gives every parsed row
  the \<^verbatim>\<open>row_index\<close> of the input row at the same position. Reading \<^verbatim>\<open>rows[idx].row_index\<close>
  past the end of the input raises a TypeError, which the \<^verbatim>\<open>catch\<close> of the method wraps.\<close>

definition fixedRows :: "request_row list \<Rightarrow> result_row list \<Rightarrow> string + result_row list" where
  "fixedRows rows parsedRows =
     (if length parsedRows \<le> length rows
      then Inr (map (\<lambda>(r, idx). r\<lparr>row_index := req_row_index (rows ! idx)\<rparr>)
                  (zip parsedRows [0..<length parsedRows]))
      else Inl ''Failed to rewrite batch: Cannot read properties of undefined (reading row_index)'')"

subsection \<open>Notions used in the statements\<close>


text \<open>A returned row matches a batch when some row of the batch has its index.\<close>

definition matchesBatch :: "commented_row list \<Rightarrow> result_row \<Rightarrow> bool" where
  "matchesBatch batch r \<longleftrightarrow> (\<exists>b\<in>set batch. int (rowIndex b) = row_index r)"

text \<open>What one call of \<^verbatim>\<open>callBackendAPIBatch\<close> returns for a batch (the Backlog it is given
  does not matter), and the rows the step of the batch appends to the destination sheet:
  those it appends to an empty sheet.\<close>

definition batchOutcome :: "backend \<Rightarrow> string list \<Rightarrow> commented_row list \<Rightarrow> string + rows_value" where
  "batchOutcome be headers batch = fst (callBackendAPIBatch be batch headers [])"


text \<open>The revised rows the loop over the returned rows appends: one for every matching
  row before the first \<^verbatim>\<open>null\<close> element.\<close>

fun appliedRows ::
  "string list \<Rightarrow> commented_row list \<Rightarrow> result_row option list \<Rightarrow> string list list" where
  "appliedRows headers batch [] = []"
| "appliedRows headers batch (None # rest) = []"
| "appliedRows headers batch (Some r # rest) =
     (if matchesBatch batch r then [buildNewRow headers r] else [])
       @ appliedRows headers batch rest"

text \<open>The log entries \<^verbatim>\<open>callBackendAPIBatch\<close> writes before each request.\<close>

definition isRequest :: "log_entry \<Rightarrow> bool" where
  "isRequest e \<longleftrightarrow> entry_type e = ''API_REQUEST''"


subsection \<open>Example inputs\<close>

text \<open>A batch of one commented row, row 3 of its sheet.\<close>

definition exBatch :: "commented_row list" where
  "exBatch = [\<lparr>rowIndex = 3, row = [''2'', ''Draft B'', ''make punchier''],
               comment = ''make punchier''\<rparr>]"


definition exResponse :: "result_row list" where
  "exResponse = [\<lparr>row_index = 2, row_fields = [(''Title'', ''A''), (''Comment'', ''fix'')]\<rparr>,
                 \<lparr>row_index = 12, row_fields = [(''Title'', ''K''), (''Comment'', ''fix'')]\<rparr>]"

definition exBackend :: backend where
  "exBackend =
     \<lparr>fetch = (\<lambda>p. if map req_row_index (batch_of p) = [7, 8, 9, 10, 11]
                    then FetchResponse 500 ''boom'' else FetchResponse 200 ''ok''),
      JSON_parse = (\<lambda>t. Inr \<lparr>success = True, data_rows = Inr (RowList (map Some exResponse))\<rparr>)\<rparr>"



text \<open>A workbook whose source sheet has no commented row: one comment cell is empty, the
  other holds white space only.\<close>

definition exPlainSheet :: spreadsheet where
  "exPlainSheet =
     \<lparr>sheets = [''Whitepaper Plans'', ''Backlog''],
      getValues = (\<lambda>n. [[''No'', ''Title'', ''Comment''], [''1'', ''Draft A'', ''''],
                         [''2'', ''Draft B'', ''  '']]),
      maxRows = 1000, maxCols = 26\<rparr>"



section \<open>Verification\<close>

subsection \<open>Facts about chunking\<close>

lemma chunkLoop_run:
  "0 < B \<Longrightarrow> chunkLoop xs B i acc = Some (acc @ chunks B (drop i xs))"
proof (induction "length xs - i" arbitrary: i acc rule: less_induct)
  case less
  show ?case
  proof (cases "i < length xs")
    case False
    then show ?thesis by (subst chunkLoop.simps) (simp add: chunks.simps)
  next
    case True
    have IH: "chunkLoop xs B (i + B) (acc @ [slice xs i (i + B)]) =
       Some ((acc @ [slice xs i (i + B)]) @ chunks B (drop (i + B) xs))"
      using less.hyps[of "i + B"] True less.prems by simp
    have "chunks B (drop i xs) = take B (drop i xs) # chunks B (drop (i + B) xs)"
      using True less.prems by (subst chunks.simps) (simp add: add.commute)
    then show ?thesis using True IH by (subst chunkLoop.simps) (simp add: slice_def)
  qed
qed

lemma chunkArray_chunks: "0 < B \<Longrightarrow> chunkArray xs B = Some (chunks B xs)"
  by (simp add: chunkArray_def chunkLoop_run)

lemma chunks_Nil [simp]: "chunks B [] = []"
  by (simp add: chunks.simps)

lemma chunks_step:
  "0 < B \<Longrightarrow> xs \<noteq> [] \<Longrightarrow> chunks B xs = take B xs # chunks B (drop B xs)"
  by (subst chunks.simps) simp

lemma concat_chunks: "0 < B \<Longrightarrow> concat (chunks B xs) = xs"
proof (induction B xs rule: chunks.induct)
  case (1 B xs)
  then show ?case by (subst chunks.simps) simp
qed

lemma div_add_one: "0 < B \<Longrightarrow> (k + B) div B = Suc (k div (B::nat))"
  by simp

lemma ceil_step:
  fixes n B :: nat
  assumes "0 < B" "0 < n"
  shows "(n + B - 1) div B = Suc ((n - B + B - 1) div B)"
proof (cases "B \<le> n")
  case True
  then have "n + B - 1 = (n - B + B - 1) + B" using assms by arith
  then have "(n + B - 1) div B = ((n - B + B - 1) + B) div B" by (rule arg_cong)
  also have "\<dots> = Suc ((n - B + B - 1) div B)" using assms(1) by (rule div_add_one)
  finally show ?thesis .
next
  case False
  then have a: "n - B + B - 1 = B - 1" by arith
  have b: "n + B - 1 = (n - 1) + B" using assms by arith
  have c: "(n - 1) div B = 0" using False assms by (intro div_less) arith
  have "(n + B - 1) div B = ((n - 1) + B) div B" using b by (rule arg_cong)
  also have "\<dots> = Suc ((n - 1) div B)" using assms(1) by (rule div_add_one)
  finally have "(n + B - 1) div B = 1" using c by simp
  moreover have "(B - 1) div B = 0" using assms(1) by (intro div_less) arith
  ultimately show ?thesis using a by simp
qed

lemma ceil_div:
  fixes N B :: nat
  assumes B: "0 < B"
  shows "nat \<lceil>real N / real B\<rceil> = (N + B - 1) div B"
proof -
  define q where "q = (N + B - 1) div B"
  define r where "r = (N + B - 1) mod B"
  have m: "N + B - 1 = q * B + r" unfolding q_def r_def by simp
  have r: "r < B" unfolding r_def using B by simp
  have lo: "N \<le> q * B" using m r by arith
  have hi: "q * B < N + B" using m B by arith
  have "real N \<le> real q * real B" using lo by (metis of_nat_le_iff of_nat_mult)
  then have 1: "real N / real B \<le> real_of_int (int q)" using B by (simp add: divide_le_eq)
  have "real q * real B < real N + real B"
    using hi by (metis of_nat_less_iff of_nat_mult of_nat_add)
  then have "(real q - 1) * real B < real N" by (simp add: algebra_simps)
  then have 2: "real_of_int (int q) - 1 < real N / real B"
    using B by (simp add: less_divide_eq)
  have "\<lceil>real N / real B\<rceil> = int q" by (rule ceiling_unique[OF 2 1])
  then show ?thesis unfolding q_def by simp
qed

lemma length_chunks: "0 < B \<Longrightarrow> length (chunks B xs) = (length xs + B - 1) div B"
proof (induction B xs rule: chunks.induct)
  case (1 B xs)
  show ?case
  proof (cases "xs = []")
    case True
    then show ?thesis using "1.prems" by simp
  next
    case False
    have IH: "length (chunks B (drop B xs)) = (length xs - B + B - 1) div B"
      using "1.IH" "1.prems" False by simp
    have "0 < length xs" using False by simp
    then have "(length xs + B - 1) div B = Suc ((length xs - B + B - 1) div B)"
      using "1.prems" by (intro ceil_step)
    then show ?thesis using IH by (simp add: chunks_step[OF "1.prems" False])
  qed
qed

lemma nth_chunks:
  "0 < B \<Longrightarrow> i < length (chunks B xs) \<Longrightarrow> chunks B xs ! i = take B (drop (i * B) xs)"
proof (induction B xs arbitrary: i rule: chunks.induct)
  case (1 B xs)
  have ne: "xs \<noteq> []" using "1.prems" by auto
  have unf: "chunks B xs = take B xs # chunks B (drop B xs)"
    using ne "1.prems" by (simp add: chunks_step)
  show ?case
  proof (cases i)
    case 0
    then show ?thesis using unf by simp
  next
    case (Suc j)
    then have "j < length (chunks B (drop B xs))" using "1.prems" unf by simp
    then have "chunks B (drop B xs) ! j = take B (drop (j * B) (drop B xs))"
      using "1.IH" ne "1.prems" by simp
    then show ?thesis using unf Suc by (simp add: add.commute)
  qed
qed

lemma chunk_start_in_range:
  assumes B: "0 < B" and i: "i < length (chunks B xs)"
  shows "i * B < length xs"
proof -
  have "i < (length xs + B - 1) div B" using i B by (simp add: length_chunks)
  then have "Suc i \<le> (length xs + B - 1) div B" by simp
  then have "Suc i * B \<le> length xs + B - 1" using B by (simp add: less_eq_div_iff_mult_less_eq)
  then show ?thesis using B by simp
qed

lemma length_nth_chunks:
  assumes B: "0 < B" and i: "i < length (chunks B xs)"
  shows "length (chunks B xs ! i) = min B (length xs - i * B)"
  using nth_chunks[OF B i] by simp

lemma ceil_count:
  fixes N B :: nat
  assumes B: "0 < B"
  shows "(N + B - 1) div B = (if N mod B = 0 then N div B else Suc (N div B))"
proof (cases "N mod B = 0")
  case True
  have "N div B * B = N" using div_mult_mod_eq[of N B] True by simp
  then have "N + B - 1 = (B - 1) + (N div B) * B" using B by arith
  then have "(N + B - 1) div B = ((B - 1) + (N div B) * B) div B" by (rule arg_cong)
  also have "\<dots> = (B - 1) div B + N div B" using B by (simp only: div_mult_self1) 
  also have "(B - 1) div B = 0" using B by (intro div_less) arith
  finally show ?thesis using True by simp
next
  case False
  define q where "q = N div B"
  define r where "r = N mod B"
  have N: "N = r + q * B" unfolding q_def r_def by simp
  have r: "0 < r" "r < B" using False B unfolding r_def by simp_all
  have "N + B - 1 = (r - 1) + (q * B + B)" using N r by arith
  then have "N + B - 1 = (r - 1) + Suc q * B" by simp
  then have "(N + B - 1) div B = ((r - 1) + Suc q * B) div B" by (rule arg_cong)
  also have "\<dots> = (r - 1) div B + Suc q" using B by (simp only: div_mult_self1)
  also have "(r - 1) div B = 0" using r by (intro div_less) arith
  finally show ?thesis using False unfolding q_def by simp
qed

lemma last_chunk_size:
  assumes B: "0 < B" and i: "Suc i = length (chunks B xs)"
  shows "length (chunks B xs ! i) = (if length xs mod B = 0 then B else length xs mod B)"
proof -
  let ?N = "length xs"
  have il: "i < length (chunks B xs)" using i by simp
  have len: "length (chunks B xs ! i) = min B (?N - i * B)"
    using length_nth_chunks[OF B il] .
  have cnt: "Suc i = (if ?N mod B = 0 then ?N div B else Suc (?N div B))"
    using i length_chunks[OF B, of xs] ceil_count[OF B, of ?N] by simp
  have N: "?N = ?N div B * B + ?N mod B" by simp
  show ?thesis
  proof (cases "?N mod B = 0")
    case True
    then have "Suc i = ?N div B" using cnt by simp
    then have "?N = Suc i * B" using N True by simp
    then have "?N - i * B = B" by simp
    then show ?thesis using len True by simp
  next
    case False
    then have "i = ?N div B" using cnt by simp
    then have "?N - i * B = ?N mod B" using N by (metis add_diff_cancel_left')
    moreover have "?N mod B < B" using B by simp
    ultimately show ?thesis using len False by simp
  qed
qed

lemma inner_chunk_size:
  assumes B: "0 < B" and i: "Suc i < length (chunks B xs)"
  shows "length (chunks B xs ! i) = B"
proof -
  have "Suc i * B < length xs" using chunk_start_in_range[OF B i] .
  then have "B \<le> length xs - i * B" by simp
  moreover have "i < length (chunks B xs)" using i by simp
  ultimately show ?thesis using length_nth_chunks[OF B, of i xs] by simp
qed

lemma nth_nth_chunks:
  assumes B: "0 < B" and i: "i < length (chunks B xs)" and j: "j < length (chunks B xs ! i)"
  shows "i * B + j < length xs \<and> chunks B xs ! i ! j = xs ! (i * B + j)"
proof -
  have c: "chunks B xs ! i = take B (drop (i * B) xs)" using nth_chunks[OF B i] .
  have jj: "j < B" "j < length xs - i * B" using j c by simp_all
  then have "i * B + j < length xs" by simp
  moreover have "chunks B xs ! i ! j = xs ! (i * B + j)" using c jj by simp
  ultimately show ?thesis by simp
qed

text \<open>
  Claim C4. For every list of \<open>N\<close> commented rows and every batch size \<open>B \<ge> 1\<close>,
  \<^verbatim>\<open>chunkArray\<close> returns, and returns exactly \<open>\<lceil>N / B\<rceil>\<close> batches that partition the
  list: their concatenation is the list itself (every row in exactly one batch, in
  collection order within and across batches), position \<open>j\<close> of batch \<open>i\<close> is position
  \<open>i * B + j\<close> of the list, every batch before the last has size \<open>B\<close>, and the last has
  size \<open>N mod B\<close> when that is not zero (and \<open>B\<close> otherwise).
\<close>

theorem chunkArray_partition:
  assumes "1 \<le> B"
  shows "\<exists>bs. chunkArray xs B = Some bs
      \<and> length bs = nat \<lceil>real (length xs) / real B\<rceil>
      \<and> concat bs = xs
      \<and> (\<forall>i<length bs. \<forall>j<length (bs ! i).
            i * B + j < length xs \<and> bs ! i ! j = xs ! (i * B + j))
      \<and> (\<forall>i<length bs. length (bs ! i) =
            (if i + 1 < length bs \<or> length xs mod B = 0 then B else length xs mod B))"
proof -
  have B: "0 < B" using assms by simp
  let ?bs = "chunks B xs"
  have 1: "chunkArray xs B = Some ?bs" using B by (rule chunkArray_chunks)
  have 2: "length ?bs = nat \<lceil>real (length xs) / real B\<rceil>"
    using B by (simp add: length_chunks ceil_div)
  have 3: "concat ?bs = xs" using B by (rule concat_chunks)
  have 4: "\<forall>i<length ?bs. \<forall>j<length (?bs ! i).
            i * B + j < length xs \<and> ?bs ! i ! j = xs ! (i * B + j)"
    using nth_nth_chunks[OF B] by blast
  have 5: "\<forall>i<length ?bs. length (?bs ! i) =
            (if i + 1 < length ?bs \<or> length xs mod B = 0 then B else length xs mod B)"
  proof (intro allI impI)
    fix i assume i: "i < length ?bs"
    show "length (?bs ! i) =
            (if i + 1 < length ?bs \<or> length xs mod B = 0 then B else length xs mod B)"
    proof (cases "i + 1 < length ?bs")
      case True
      then show ?thesis using inner_chunk_size[OF B, of i xs] by simp
    next
      case False
      then have "Suc i = length ?bs" using i by simp
      then show ?thesis using last_chunk_size[OF B, of i xs] False by simp
    qed
  qed
  show ?thesis using 1 2 3 4 5 by blast
qed

theorem chunkArray_partition_witness:
  "\<exists>bs. chunkArray ''abcdefg'' 3 = Some bs
      \<and> length bs = nat \<lceil>real (length ''abcdefg'') / real (3::nat)\<rceil>
      \<and> concat bs = ''abcdefg''
      \<and> (\<forall>i<length bs. \<forall>j<length (bs ! i).
            i * 3 + j < length ''abcdefg'' \<and> bs ! i ! j = ''abcdefg'' ! (i * 3 + j))
      \<and> (\<forall>i<length bs. length (bs ! i) =
            (if i + 1 < length bs \<or> length ''abcdefg'' mod 3 = 0 then 3 else length ''abcdefg'' mod 3))"
  by (rule chunkArray_partition) simp

subsection \<open>Version resolution\<close>







subsection \<open>The diff\<close>

text \<open>
  Claim C8. For every string \<open>a\<close>, the diff of the pair \<open>(a, a)\<close> has no span: this holds
  for \<^verbatim>\<open>computeSimpleDiff\<close>, for the ranges \<^verbatim>\<open>createDiffRichText\<close> styles from it, and for
  the ranges the longest-common-subsequence variant styles.
\<close>

theorem identical_texts_no_spans:
  "computeSimpleDiff a a = [] \<and> rt_red (createDiffRichText a a) = []
   \<and> rt_red (createDiffRichText_lcs a a) = []"
  by (simp add: computeSimpleDiff_def createDiffRichText_def createDiffRichText_lcs_def)

text \<open>
  Claim C5. The claim asks for one span \<open>[2, 3)\<close> on the pair \<open>abc\<close>, \<open>abXc\<close>. The diff of
  the script, which its own comments call LCS-based, returns one span \<open>[0, 4)\<close> there, the
  whole new text.
\<close>

theorem computeSimpleDiff_marks_whole_text:
  "computeSimpleDiff ''abc'' ''abXc'' = [\<lparr>seg_type = ''insert'', seg_start = 0, seg_end = 4\<rparr>]
   \<and> rt_red (createDiffRichText ''abc'' ''abXc'') = [(0, 4)]"
  by (simp add: computeSimpleDiff_def createDiffRichText_def)

text \<open>The longest-common-subsequence variant of the implementation guide styles the
  inserted character only.\<close>

lemma guide_diff_marks_inserted_character:
  "rt_red (createDiffRichText_lcs ''abc'' ''abXc'') = [(2, 3)]"
  by code_simp

subsection \<open>The schema builder\<close>

lemma map_of_setProp: "map_of (setProp k v ps) = (map_of ps)(k \<mapsto> v)"
  by (induction ps) (auto simp: fun_eq_iff)

lemma map_of_assign:
  "map_of (assign k v ps) k' =
     (if k' = k \<and> k \<noteq> ''__proto__'' then Some v else map_of ps k')"
  by (simp add: assign_def map_of_setProp)

lemma map_of_foldl_assign:
  "map_of (foldl (\<lambda>ps h. assign h v ps) ps0 hs) k =
     (if k \<in> set hs \<and> k \<noteq> ''__proto__'' then Some v else map_of ps0 k)"
proof (induction hs arbitrary: ps0)
  case Nil
  then show ?case by simp
next
  case (Cons h hs)
  show ?case by (simp add: Cons.IH map_of_assign)
qed

text \<open>
  Claim C9, as stated, fails: the schema builder accepts the empty header list and
  returns a schema whose rows require \<open>row_index\<close> alone. A header named \<open>row_index\<close>
  replaces the integer property by a string property, and a header named
  \<open>__proto__\<close> becomes no property at all.
\<close>

theorem generateSchema_accepts_empty_headers:
  "generateSchema [] =
     Inr \<lparr>required = [''rows''], additionalProperties = False,
          rows_items = \<lparr>item_required = [''row_index''], item_additionalProperties = False,
                         item_properties = [(''row_index'', TInteger)]\<rparr>\<rparr>
   \<and> generateSchema [''row_index''] =
     Inr \<lparr>required = [''rows''], additionalProperties = False,
          rows_items = \<lparr>item_required = [''row_index'', ''row_index''],
                         item_additionalProperties = False,
                         item_properties = [(''row_index'', TString)]\<rparr>\<rparr>
   \<and> generateSchema [''__proto__''] =
     Inr \<lparr>required = [''rows''], additionalProperties = False,
          rows_items = \<lparr>item_required = [''row_index'', ''__proto__''],
                         item_additionalProperties = False,
                         item_properties = [(''row_index'', TInteger)]\<rparr>\<rparr>"
  by (simp add: generateSchema_def assign_def)

text \<open>
  Claim C9, amended. The schema builder succeeds on every header list, the empty one
  included. The schema requires \<open>rows\<close> and admits no additional property; each row
  requires \<open>row_index\<close> followed by the header names as they are, admits no additional
  property, declares every header name other than \<open>row_index\<close> and \<open>__proto__\<close> as a
  string property, declares \<open>row_index\<close> as an integer property when no header has that
  name, and declares no other property. The empty header list is rejected before the
  builder is called: the route answers it with status 400 and code
  \<open>INVALID_HEADERS\<close> once the services are initialised and the user id is a non-empty
  string. With the usage check passed, the same route answers a non-empty list of
  header names with the schema the builder returns.
\<close>

theorem generateSchema_contract:
  "\<exists>schema. generateSchema headers = Inr schema
     \<and> required schema = [''rows''] \<and> additionalProperties schema = False
     \<and> item_required (rows_items schema) = ''row_index'' # headers
     \<and> item_additionalProperties (rows_items schema) = False
     \<and> (\<forall>h\<in>set headers. h \<noteq> ''row_index'' \<and> h \<noteq> ''__proto__'' \<longrightarrow>
           map_of (item_properties (rows_items schema)) h = Some TString)
     \<and> (''row_index'' \<notin> set headers \<longrightarrow>
           map_of (item_properties (rows_items schema)) ''row_index'' = Some TInteger)
     \<and> (\<forall>k. map_of (item_properties (rows_items schema)) k \<noteq> None \<longrightarrow>
           k = ''row_index'' \<or> k \<in> set headers)
     \<and> (\<forall>uid. uid \<noteq> [] \<and> headers \<noteq> [] \<longrightarrow>
           schemaGenerate True (Inr True) None (JStr uid) (JArr (map JStr headers))
             = Generated schema)
     \<and> (\<forall>usageCheck recordUsage uid. uid \<noteq> [] \<longrightarrow>
           schemaGenerate True usageCheck recordUsage (JStr uid) (JArr [])
             = Rejected 400 ''INVALID_HEADERS'')"
proof -
  let ?schema = "\<lparr>required = [''rows''], additionalProperties = False,
      rows_items = \<lparr>item_required = [''row_index''] @ headers,
                     item_additionalProperties = False,
                     item_properties = foldl (\<lambda>ps header. assign header TString ps)
                                         [(''row_index'', TInteger)] headers\<rparr>\<rparr>"
  have g: "generateSchema headers = Inr ?schema"
    by (simp add: generateSchema_def)
  have p: "\<forall>h\<in>set headers. h \<noteq> ''row_index'' \<and> h \<noteq> ''__proto__'' \<longrightarrow>
           map_of (item_properties (rows_items ?schema)) h = Some TString"
    by (simp add: map_of_foldl_assign)
  have r: "''row_index'' \<notin> set headers \<longrightarrow>
           map_of (item_properties (rows_items ?schema)) ''row_index'' = Some TInteger"
    by (simp add: map_of_foldl_assign)
  have k: "\<forall>k. map_of (item_properties (rows_items ?schema)) k \<noteq> None \<longrightarrow>
           k = ''row_index'' \<or> k \<in> set headers"
    by (simp add: map_of_foldl_assign)
  have strs: "list_all (\<lambda>h. stringOf h \<noteq> None) (map JStr headers)"
    by (simp add: list_all_iff stringOf_def)
  have unwrap: "map ((\<lambda>h. the (stringOf h)) \<circ> JStr) headers = headers"
    by (simp add: stringOf_def comp_def)
  have ok: "schemaGenerate True (Inr True) None (JStr uid) (JArr (map JStr headers))
             = Generated ?schema" if "uid \<noteq> []" "headers \<noteq> []" for uid
    using that strs by (simp add: schemaGenerate_def isNonEmptyString_def unwrap g)
  have rej: "schemaGenerate True usageCheck recordUsage (JStr uid) (JArr [])
             = Rejected 400 ''INVALID_HEADERS''" if "uid \<noteq> []" for usageCheck recordUsage uid
    using that by (simp add: schemaGenerate_def isNonEmptyString_def)
  show ?thesis using g p r k ok rej by (intro exI[of _ ?schema]) simp
qed

theorem generateSchema_contract_witness:
  "\<exists>schema. generateSchema [''No'', ''Title''] = Inr schema
     \<and> item_required (rows_items schema) = [''row_index'', ''No'', ''Title'']
     \<and> map_of (item_properties (rows_items schema)) ''Title'' = Some TString
     \<and> map_of (item_properties (rows_items schema)) ''row_index'' = Some TInteger
     \<and> schemaGenerate True (Inr True) None (JStr ''u1'') (JArr [JStr ''No'', JStr ''Title''])
         = Generated schema
     \<and> schemaGenerate True (Inr True) None (JStr ''u1'') (JArr []) = Rejected 400 ''INVALID_HEADERS''"
  using generateSchema_contract[of "[''No'', ''Title'']"] by auto

subsection \<open>Reconciliation by row index\<close>

lemma find_Some_matches:
  "matchesBatch batch r \<Longrightarrow> \<exists>b. find (\<lambda>b. int (rowIndex b) = row_index r) batch = Some b"
  unfolding matchesBatch_def by (cases "find (\<lambda>b. int (rowIndex b) = row_index r) batch")
    (auto simp: find_None_iff)

lemma find_None_matches:
  "\<not> matchesBatch batch r \<Longrightarrow> find (\<lambda>b. int (rowIndex b) = row_index r) batch = None"
  unfolding matchesBatch_def by (simp add: find_None_iff)

lemma dest_applyResult:
  "dest (applyResult src headers batch st r) =
     (if matchesBatch batch r then dest st @ [buildNewRow headers r] else dest st)"
proof (cases "matchesBatch batch r")
  case True
  then obtain b where "find (\<lambda>b. int (rowIndex b) = row_index r) batch = Some b"
    using find_Some_matches by blast
  then show ?thesis using True by (simp add: applyResult_def Let_def)
next
  case False
  then show ?thesis by (simp add: applyResult_def find_None_matches)
qed

lemma dest_foldl_applyResult:
  "dest (foldl (applyResult src headers batch) st rs) =
     dest st @ map (buildNewRow headers) (filter (matchesBatch batch) rs)"
  by (induction rs arbitrary: st) (simp_all add: dest_applyResult)

lemma fixedRows_Inr:
  "length parsedRows \<le> length rows \<Longrightarrow>
     fixedRows rows parsedRows =
       Inr (map (\<lambda>i. (parsedRows ! i)\<lparr>row_index := req_row_index (rows ! i)\<rparr>)
              [0..<length parsedRows])"
proof -
  assume le: "length parsedRows \<le> length rows"
  have "map (\<lambda>(r, idx). r\<lparr>row_index := req_row_index (rows ! idx)\<rparr>)
          (zip parsedRows [0..<length parsedRows]) =
        map (\<lambda>i. (parsedRows ! i)\<lparr>row_index := req_row_index (rows ! i)\<rparr>)
          [0..<length parsedRows]"
    by (rule nth_equalityI) simp_all
  then show ?thesis using le by (simp add: fixedRows_def)
qed

text \<open>
  Claim C10. When the parsed response has no more rows than the request, the backend
  returns the parsed rows with the \<^verbatim>\<open>row_index\<close> of each replaced by that of the input row at
  the same position, whatever value the model emitted; the other fields are kept. When the
  request rows are those the script formatted from its batch (in particular when the
  response has as many rows as the request), every returned row finds its row of the
  batch, and the script appends a revised row for each: none is discarded.
\<close>

theorem fixedRows_positional:
  assumes "length parsedRows \<le> length rows"
  shows "\<exists>fixed. fixedRows rows parsedRows = Inr fixed
     \<and> length fixed = length parsedRows
     \<and> (\<forall>i<length parsedRows.
           fixed ! i = (parsedRows ! i)\<lparr>row_index := req_row_index (rows ! i)\<rparr>)
     \<and> (\<forall>batch headers src st. rows = map (formatRow headers) batch \<longrightarrow>
           (\<forall>r\<in>set fixed. \<exists>b.
              find (\<lambda>b. int (rowIndex b) = row_index r) batch = Some b)
           \<and> dest (foldl (applyResult src headers batch) st fixed) =
               dest st @ map (buildNewRow headers) fixed)"
proof -
  let ?fixed = "map (\<lambda>i. (parsedRows ! i)\<lparr>row_index := req_row_index (rows ! i)\<rparr>)
                  [0..<length parsedRows]"
  have 1: "fixedRows rows parsedRows = Inr ?fixed" using assms by (rule fixedRows_Inr)
  have 2: "length ?fixed = length parsedRows" by simp
  have 3: "\<forall>i<length parsedRows.
           ?fixed ! i = (parsedRows ! i)\<lparr>row_index := req_row_index (rows ! i)\<rparr>" by simp
  have 4: "(\<forall>r\<in>set ?fixed. \<exists>b.
              find (\<lambda>b. int (rowIndex b) = row_index r) batch = Some b)
           \<and> dest (foldl (applyResult src headers batch) st ?fixed) =
               dest st @ map (buildNewRow headers) ?fixed"
    if rows: "rows = map (formatRow headers) batch" for batch headers src st
  proof -
    have m: "matchesBatch batch r" if "r \<in> set ?fixed" for r
    proof -
      from that obtain i where i: "i < length parsedRows"
        and r: "r = (parsedRows ! i)\<lparr>row_index := req_row_index (rows ! i)\<rparr>" by auto
      have "i < length batch" using i assms rows by simp
      then have "batch ! i \<in> set batch" "req_row_index (rows ! i) = int (rowIndex (batch ! i))"
        using rows by (simp_all add: formatRow_def)
      then show ?thesis unfolding matchesBatch_def using r by auto
    qed
    then have "filter (matchesBatch batch) ?fixed = ?fixed" by (intro filter_True) blast
    then show ?thesis using m find_Some_matches by (simp only: dest_foldl_applyResult) blast
  qed
  show ?thesis using 1 2 3 4 by blast
qed

theorem fixedRows_positional_witness:
  "fixedRows (map (formatRow [''No'', ''Title'', ''Comment'']) exBatch)
        [\<lparr>row_index = 99, row_fields = [(''Title'', ''Draft B!!'')]\<rparr>]
     = Inr [\<lparr>row_index = 3, row_fields = [(''Title'', ''Draft B!!'')]\<rparr>]
   \<and> (\<exists>b. find (\<lambda>b. int (rowIndex b) = 3) exBatch = Some b)"
proof -
  let ?hs = "[''No'', ''Title'', ''Comment'']"
  let ?parsed = "[\<lparr>row_index = 99, row_fields = [(''Title'', ''Draft B!!'')]\<rparr>]"
  have le: "length ?parsed \<le> length (map (formatRow ?hs) exBatch)"
    by (simp add: exBatch_def)
  from fixedRows_positional[OF le] obtain fixed where
    f: "fixedRows (map (formatRow ?hs) exBatch) ?parsed = Inr fixed"
    and m: "\<forall>batch headers src st.
           map (formatRow ?hs) exBatch = map (formatRow headers) batch \<longrightarrow>
           (\<forall>r\<in>set fixed. \<exists>b.
              find (\<lambda>b. int (rowIndex b) = row_index r) batch = Some b)
           \<and> dest (foldl (applyResult src headers batch) st fixed) =
               dest st @ map (buildNewRow headers) fixed"
    by blast
  have fx: "fixed = [\<lparr>row_index = 3, row_fields = [(''Title'', ''Draft B!!'')]\<rparr>]"
    using f by (simp add: fixedRows_def exBatch_def formatRow_def)
  have "\<forall>r\<in>set fixed. \<exists>b. find (\<lambda>b. int (rowIndex b) = row_index r) exBatch = Some b"
    using m by blast
  then have "\<exists>b. find (\<lambda>b. int (rowIndex b) = 3) exBatch = Some b"
    unfolding fx by simp
  then show ?thesis using f fx by simp
qed

subsection \<open>The batch loop\<close>

lemma fst_callBackendAPIBatch:
  "fst (callBackendAPIBatch be batch headers lg) = batchOutcome be headers batch"
  by (simp add: batchOutcome_def callBackendAPIBatch_def Let_def
      split: fetch_outcome.splits sum.splits)

lemma snd_callBackendAPIBatch:
  "snd (callBackendAPIBatch be batch headers lg) =
     lg @ \<lparr>entry_type = ''API_REQUEST'', batchIndex = - 1, status = ''SENDING'',
            message = ''Sending request to Backend API''\<rparr> #
       (case batchOutcome be headers batch of
          Inl m \<Rightarrow> []
        | Inr rows \<Rightarrow> [\<lparr>entry_type = ''API_RESPONSE'', batchIndex = - 1, status = ''SUCCESS'',
                          message = ''Received response from Backend API''\<rparr>])"
  by (simp add: batchOutcome_def callBackendAPIBatch_def Let_def logToBacklog_def
      split: fetch_outcome.splits sum.splits)

lemma callBackendAPIBatch_eq:
  "callBackendAPIBatch be batch headers lg =
     (batchOutcome be headers batch, snd (callBackendAPIBatch be batch headers lg))"
  by (metis fst_callBackendAPIBatch prod.collapse)

lemma backlog_applyResult [simp]: "backlog (applyResult src headers batch st r) = backlog st"
  by (simp add: applyResult_def Let_def split: option.splits)

lemma backlog_foldl_applyResult [simp]:
  "backlog (foldl (applyResult src headers batch) st rs) = backlog st"
  by (induction rs arbitrary: st) simp_all

lemma fst_applyResults:
  "fst (applyResults src headers batch st rows) =
     (if None \<in> set rows then Some nullRowMessage else None)"
  by (induction src headers batch st rows rule: applyResults.induct) auto

lemma dest_applyResults:
  "dest (snd (applyResults src headers batch st rows)) =
     dest st @ appliedRows headers batch rows"
  by (induction src headers batch st rows rule: applyResults.induct)
     (simp_all add: dest_applyResult)

lemma backlog_applyResults [simp]:
  "backlog (snd (applyResults src headers batch st rows)) = backlog st"
  by (induction src headers batch st rows rule: applyResults.induct) simp_all

lemma applyResults_map_Some:
  "applyResults src headers batch st (map Some rs) =
     (None, foldl (applyResult src headers batch) st rs)"
  by (induction rs arbitrary: st) simp_all

lemma appliedRows_map_Some:
  "appliedRows headers batch (map Some rs) =
     map (buildNewRow headers) (filter (matchesBatch batch) rs)"
  by (induction rs) simp_all

lemma dest_catchBatch [simp]: "dest (catchBatch bi batch m st) = dest st @ map row batch"
  by (simp add: catchBatch_def)

lemma backlog_catchBatch [simp]:
  "backlog (catchBatch bi batch m st) =
     backlog st @ [\<lparr>entry_type = ''ERROR'', batchIndex = int bi, status = ''FAILED'',
                     message = ''Batch failed: '' @ m\<rparr>]"
  by (simp add: catchBatch_def logToBacklog_def)

text \<open>The step of a batch, by what the call returns.\<close>

lemma processBatch_Inl:
  assumes "batchOutcome be headers batch = Inl m"
  shows "processBatch be src headers n bi batch st =
     catchBatch bi batch m
       (st\<lparr>backlog := backlog st @
          [\<lparr>entry_type = ''INFO'', batchIndex = int bi, status = ''BATCH_START'',
             message = ''Processing batch '' @ toString (bi + 1) @ ''/'' @ toString n\<rparr>,
           \<lparr>entry_type = ''API_REQUEST'', batchIndex = - 1, status = ''SENDING'',
             message = ''Sending request to Backend API''\<rparr>]\<rparr>)"
  using assms
  by (subst processBatch_def, subst callBackendAPIBatch_eq)
     (simp add: Let_def snd_callBackendAPIBatch logToBacklog_def)

lemma processBatch_NotIterable:
  assumes "batchOutcome be headers batch = Inr (NotIterable m)"
  shows "processBatch be src headers n bi batch st =
     catchBatch bi batch m
       (st\<lparr>backlog := backlog st @
          [\<lparr>entry_type = ''INFO'', batchIndex = int bi, status = ''BATCH_START'',
             message = ''Processing batch '' @ toString (bi + 1) @ ''/'' @ toString n\<rparr>,
           \<lparr>entry_type = ''API_REQUEST'', batchIndex = - 1, status = ''SENDING'',
             message = ''Sending request to Backend API''\<rparr>,
           \<lparr>entry_type = ''API_RESPONSE'', batchIndex = - 1, status = ''SUCCESS'',
             message = ''Received response from Backend API''\<rparr>,
           \<lparr>entry_type = ''API_RESPONSE'', batchIndex = int bi, status = ''SUCCESS'',
             message = ''Batch processed successfully''\<rparr>]\<rparr>)"
  using assms
  by (subst processBatch_def, subst callBackendAPIBatch_eq)
     (simp add: Let_def snd_callBackendAPIBatch logToBacklog_def)

lemma processBatch_RowList:
  assumes "batchOutcome be headers batch = Inr (RowList rows)"
  shows "processBatch be src headers n bi batch st =
     (case applyResults src headers batch
             (st\<lparr>backlog := backlog st @
                [\<lparr>entry_type = ''INFO'', batchIndex = int bi, status = ''BATCH_START'',
                   message = ''Processing batch '' @ toString (bi + 1) @ ''/'' @ toString n\<rparr>,
                 \<lparr>entry_type = ''API_REQUEST'', batchIndex = - 1, status = ''SENDING'',
                   message = ''Sending request to Backend API''\<rparr>,
                 \<lparr>entry_type = ''API_RESPONSE'', batchIndex = - 1, status = ''SUCCESS'',
                   message = ''Received response from Backend API''\<rparr>,
                 \<lparr>entry_type = ''API_RESPONSE'', batchIndex = int bi, status = ''SUCCESS'',
                   message = ''Batch processed successfully''\<rparr>]\<rparr>) rows of
        (None, st3) \<Rightarrow> st3\<lparr>totalProcessed := totalProcessed st3 + length batch\<rparr>
      | (Some m, st3) \<Rightarrow> catchBatch bi batch m st3)"
  using assms
  by (subst processBatch_def, subst callBackendAPIBatch_eq)
     (simp add: Let_def snd_callBackendAPIBatch logToBacklog_def)

lemma applyResults_pair:
  "applyResults src headers batch st rows =
     (if None \<in> set rows then Some nullRowMessage else None,
      snd (applyResults src headers batch st rows))"
  by (metis fst_applyResults prod.collapse)

lemma dest_processBatch_cases:
  "dest (processBatch be src headers n bi batch st) =
     dest st @
     (case batchOutcome be headers batch of
        Inl m \<Rightarrow> map row batch
      | Inr (NotIterable m) \<Rightarrow> map row batch
      | Inr (RowList rows) \<Rightarrow>
          appliedRows headers batch rows @ (if None \<in> set rows then map row batch else []))"
proof (cases "batchOutcome be headers batch")
  case (Inl m)
  then show ?thesis by (simp add: processBatch_Inl)
next
  case (Inr rv)
  show ?thesis
  proof (cases rv)
    case (NotIterable m)
    then show ?thesis using Inr by (simp add: processBatch_NotIterable)
  next
    case (RowList rows)
    then have o: "batchOutcome be headers batch = Inr (RowList rows)" using Inr by simp
    show ?thesis
      by (simp only: processBatch_RowList[OF o] o, subst applyResults_pair)
         (simp add: dest_applyResults)
  qed
qed









lemma chunkArray_BATCH_SIZE:
  "chunkArray xs BATCH_SIZE = Some (chunks BATCH_SIZE xs)"
  by (rule chunkArray_chunks) (simp add: BATCH_SIZE_def)

lemma info_simps [simp]:
  "dest (info s m st) = dest st" "highlights (info s m st) = highlights st"
  "totalProcessed (info s m st) = totalProcessed st"
  "totalSuccess (info s m st) = totalSuccess st"
  "totalFailed (info s m st) = totalFailed st"
  by (simp_all add: info_def)

lemma backlog_info:
  "backlog (info s m st) = backlog st @
     [\<lparr>entry_type = ''INFO'', batchIndex = - 1, status = s, message = m\<rparr>]"
  by (simp add: info_def logToBacklog_def)

lemma requests_info [simp]:
  "filter isRequest (backlog (info s m st)) = filter isRequest (backlog st)"
  by (simp add: backlog_info isRequest_def)

lemma reviseValues_nonempty:
  assumes "values \<noteq> []"
  shows "reviseValues be ss values st0 =
     (let headers = hd values;
          batches = chunks BATCH_SIZE (collectCommentedRows values);
          st2 = info ''COLLECTED''
                  (''Found '' @ toString (length (collectCommentedRows values)) @ '' commented rows'')
                  (info ''HEADERS''
                    (''Headers copied ('' @ toString (length headers) @ '' columns)'')
                    (st0\<lparr>dest := dest st0 @ [headers]\<rparr>));
          st3 = batchLoop be values headers (length batches) 0 batches st2;
          st4 = st3\<lparr>dest := dest st3 @ copyUncommented values\<rparr>;
          st5 = (if maxRows ss > length (dest st4)
                 then info ''CLEANUP'' ''Deleted empty rows'' st4 else st4);
          st6 = (if maxCols ss > length headers
                 then info ''CLEANUP'' ''Deleted empty columns'' st5 else st5)
      in Some (None, info ''COMPLETED'' ''Rewrite process completed'' st6))"
  using assms by (simp add: reviseValues_def chunkArray_BATCH_SIZE Let_def)











text \<open>The ways a call fails: the request raises, the status is 300 or more, the body does
  not parse, the body is not a success body, or its rows cannot be read.\<close>

lemma batchOutcome_failure_cases:
  fixes be headers batch
  defines "p \<equiv> \<lparr>batch_of = map (formatRow headers) batch, headers_of = headers\<rparr>"
  shows "fetch be p = FetchThrows m \<Longrightarrow> batchOutcome be headers batch = Inl m"
    and "fetch be p = FetchResponse code text \<Longrightarrow> 300 \<le> code \<Longrightarrow>
           batchOutcome be headers batch =
             Inl (''Backend API error ('' @ toStringInt code @ ''): '' @ text)"
    and "fetch be p = FetchResponse code text \<Longrightarrow> code < 300 \<Longrightarrow>
           JSON_parse be text = Inl m \<Longrightarrow> batchOutcome be headers batch = Inl m"
    and "fetch be p = FetchResponse code text \<Longrightarrow> code < 300 \<Longrightarrow>
           JSON_parse be text = Inr result \<Longrightarrow> \<not> success result \<Longrightarrow>
           batchOutcome be headers batch = Inl ''Backend API returned error''"
    and "fetch be p = FetchResponse code text \<Longrightarrow> code < 300 \<Longrightarrow>
           JSON_parse be text = Inr result \<Longrightarrow> success result \<Longrightarrow>
           data_rows result = Inl m \<Longrightarrow> batchOutcome be headers batch = Inl m"
  by (simp_all add: p_def batchOutcome_def callBackendAPIBatch_def Let_def)

subsection \<open>A sheet without commented rows\<close>

lemma trim_Nil [simp]: "trim [] = []"
  by (simp add: trim_def)

lemma map_nth_tl: "map ((!) xs) [Suc 0..<length xs] = tl xs"
  by (rule nth_equalityI) (simp_all add: nth_tl)

lemma no_comment_rows:
  assumes "\<forall>r\<in>set (tl values). trim (commentCell (hd values) r) = []"
    and "Suc 0 \<le> i" "i < length values"
  shows "\<not> hasComment (hd values) (values ! i)"
proof -
  from assms(2,3) obtain k where k: "i = Suc k" "k < length (tl values)"
    by (cases i) auto
  then have "tl values ! k = values ! i" by (simp add: nth_tl)
  then have "values ! i \<in> set (tl values)" using k(2) by (metis nth_mem)
  then show ?thesis using assms(1) by (simp add: hasComment_def)
qed

lemma collect_none:
  assumes "\<forall>r\<in>set (tl values). trim (commentCell (hd values) r) = []"
  shows "collectCommentedRows values = []"
  using no_comment_rows[OF assms] by (simp add: collectCommentedRows_def filter_empty_conv)

lemma copy_all:
  assumes "\<forall>r\<in>set (tl values). trim (commentCell (hd values) r) = []"
  shows "copyUncommented values = tl values"
proof -
  have "filter (\<lambda>i. \<not> hasComment (hd values) (values ! i)) [Suc 0..<length values] =
      [Suc 0..<length values]"
    using no_comment_rows[OF assms] by (intro filter_True) simp
  then have "copyUncommented values = map ((!) values) [Suc 0..<length values]"
    by (simp add: copyUncommented_def)
  then show ?thesis by (simp only: map_nth_tl)
qed

lemma only_info_info:
  "\<forall>e\<in>set (backlog st). entry_type e = ''INFO'' \<Longrightarrow>
   \<forall>e\<in>set (backlog (info s m st)). entry_type e = ''INFO''"
  by (simp add: backlog_info)

lemma only_info_dest:
  "\<forall>e\<in>set (backlog st). entry_type e = ''INFO'' \<Longrightarrow>
   \<forall>e\<in>set (backlog (st\<lparr>dest := d\<rparr>)). entry_type e = ''INFO''"
  by simp

text \<open>
  Claim C7. On a source sheet with a header row in which no data row has a non-empty
  trimmed comment cell, the run completes without error; the destination sheet is the
  source grid, header and data rows unchanged and in order, with no highlighted cell;
  there is no batch, no request entry in the Backlog (every entry is an \<open>INFO\<close> entry),
  and the counters stay at zero.
\<close>

theorem uncommented_grid_copied:
  assumes src: "detectSourceSheet (sheets ss) = Some src"
    and vals: "getValues ss src = values" "values \<noteq> []"
    and none: "\<forall>r\<in>set (tl values). trim (commentCell (hd values) r) = []"
  shows "\<exists>st. rewriteAllCommentedRows be ss = Some (None, st)
     \<and> dest st = values
     \<and> highlights st = []
     \<and> chunkArray (collectCommentedRows values) BATCH_SIZE = Some []
     \<and> filter isRequest (backlog st) = []
     \<and> (\<forall>e\<in>set (backlog st). entry_type e = ''INFO'')
     \<and> totalProcessed st = 0 \<and> totalSuccess st = 0 \<and> totalFailed st = 0"
proof -
  let ?I = "\<lambda>st. \<forall>e\<in>set (backlog st). entry_type e = ''INFO''"
  let ?Z = "\<lambda>st. totalProcessed st = 0 \<and> totalSuccess st = 0 \<and> totalFailed st = 0
                \<and> highlights st = []"
  define st1 where "st1 = info ''DETECTED'' (''Source sheet: '' @ src)
                (info ''START'' ''Starting rewrite process'' initialState)"
  define name where "name = generateNextVersion src"
  define st2 where "st2 = (if name \<in> set (sheets ss)
              then info ''CLEARED'' (''Existing sheet '' @ name @ '' cleared'') st1
              else info ''CREATED'' (''New sheet '' @ name @ '' created'') st1)"
  define st3 where "st3 = info ''COLLECTED'' (''Found '' @ toString 0 @ '' commented rows'')
                (info ''HEADERS''
                  (''Headers copied ('' @ toString (length (hd values)) @ '' columns)'')
                  (st2\<lparr>dest := dest st2 @ [hd values]\<rparr>))"
  define st4 where "st4 = st3\<lparr>dest := dest st3 @ copyUncommented values\<rparr>"
  define st5 where "st5 = (if maxRows ss > length (dest st4)
                 then info ''CLEANUP'' ''Deleted empty rows'' st4 else st4)"
  define st6 where "st6 = (if maxCols ss > length (hd values)
                 then info ''CLEANUP'' ''Deleted empty columns'' st5 else st5)"
  define st where "st = info ''COMPLETED'' ''Rewrite process completed'' st6"
  have c: "collectCommentedRows values = []" using none by (rule collect_none)
  have run0: "rewriteAllCommentedRows be ss = reviseValues be ss values st2"
    using src vals(1) by (simp add: rewriteAllCommentedRows_def Let_def st2_def st1_def name_def)
  have run: "rewriteAllCommentedRows be ss = Some (None, st)"
    unfolding run0 reviseValues_nonempty[OF vals(2)]
    by (simp add: c Let_def st_def st6_def st5_def st4_def st3_def)
  have I1: "?I st1" unfolding st1_def
    by (intro only_info_info) (simp add: initialState_def)
  have I2: "?I st2" unfolding st2_def using I1 by (simp add: only_info_info)
  have I3: "?I st3" unfolding st3_def using I2 by (intro only_info_info only_info_dest)
  have I4: "?I st4" unfolding st4_def using I3 by simp
  have I5: "?I st5" unfolding st5_def using I4 by (simp add: only_info_info)
  have I6: "?I st6" unfolding st6_def using I5 by (simp add: only_info_info)
  have i: "?I st" unfolding st_def using I6 by (rule only_info_info)
  have Z1: "?Z st1" unfolding st1_def by (simp add: initialState_def)
  have Z2: "?Z st2" unfolding st2_def using Z1 by simp
  have Z3: "?Z st3" unfolding st3_def using Z2 by simp
  have Z4: "?Z st4" unfolding st4_def using Z3 by simp
  have Z5: "?Z st5" unfolding st5_def using Z4 by simp
  have Z6: "?Z st6" unfolding st6_def using Z5 by simp
  have t: "?Z st" unfolding st_def using Z6 by simp
  have D1: "dest st1 = []" unfolding st1_def by (simp add: initialState_def)
  have D2: "dest st2 = []" unfolding st2_def using D1 by simp
  have D3: "dest st3 = [hd values]" unfolding st3_def using D2 by simp
  have D4: "dest st4 = hd values # tl values"
    unfolding st4_def using D3 copy_all[OF none] by simp
  have D5: "dest st5 = hd values # tl values" unfolding st5_def using D4 by simp
  have D6: "dest st6 = hd values # tl values" unfolding st6_def using D5 by simp
  have d: "dest st = values" unfolding st_def using D6 vals(2) by simp
  have b: "chunkArray (collectCommentedRows values) BATCH_SIZE = Some []"
    by (simp add: c chunkArray_BATCH_SIZE)
  have r: "filter isRequest (backlog st) = []"
    using i by (auto simp: filter_empty_conv isRequest_def)
  show ?thesis using run d b i r t by blast
qed

theorem uncommented_grid_copied_witness:
  "\<exists>st. rewriteAllCommentedRows exBackend exPlainSheet = Some (None, st)
     \<and> dest st = [[''No'', ''Title'', ''Comment''], [''1'', ''Draft A'', ''''],
                  [''2'', ''Draft B'', ''  '']]
     \<and> highlights st = []
     \<and> filter isRequest (backlog st) = []"
proof -
  let ?grid = "[[''No'', ''Title'', ''Comment''], [''1'', ''Draft A'', ''''],
                  [''2'', ''Draft B'', ''  '']]"
  have s: "detectSourceSheet (sheets exPlainSheet) = Some ''Whitepaper Plans''"
    by (simp add: exPlainSheet_def detectSourceSheet_def detectStep_def matchVER_def)
  have v: "getValues exPlainSheet ''Whitepaper Plans'' = ?grid" "?grid \<noteq> []"
    by (simp_all add: exPlainSheet_def)
  have n: "\<forall>r\<in>set (tl ?grid). trim (commentCell (hd ?grid) r) = []"
    by (simp add: commentCell_def cellAt_def trim_def isWhiteSpace_def)
  from uncommented_grid_copied[OF s v n, of exBackend] show ?thesis by blast
qed

subsection \<open>Applying the results of a batch\<close>

lemma applyResult_unmatched:
  "\<not> matchesBatch batch r \<Longrightarrow> applyResult src headers batch st r = st"
  by (simp add: applyResult_def find_None_matches)

lemma foldl_applyResult_filter:
  "foldl (applyResult src headers batch) st rs =
     foldl (applyResult src headers batch) st (filter (matchesBatch batch) rs)"
  by (induction rs arbitrary: st) (simp_all add: applyResult_unmatched)

lemma matchesBatch_eq:
  "matchesBatch batch = (\<lambda>r. \<exists>b\<in>set batch. int (rowIndex b) = row_index r)"
  by (rule ext) (simp add: matchesBatch_def)

lemma applyResults_filter:
  "applyResults src headers batch st rows =
     applyResults src headers batch st
       (filter (\<lambda>x. case x of None \<Rightarrow> True | Some r \<Rightarrow> matchesBatch batch r) rows)"
  by (induction src headers batch st rows rule: applyResults.induct)
     (simp_all add: applyResult_unmatched)

text \<open>
  Claim C3. A returned row whose \<^verbatim>\<open>row_index\<close> is the index of no row of the batch is
  skipped: the step of the loop leaves the state as it is, the loop over the returned
  rows ends in the state it reaches on the matching rows alone (also when it stops at a
  \<^verbatim>\<open>null\<close> element), and the rows a batch appends to the destination sheet are built from
  the matching rows only.
\<close>

theorem unmatched_results_discarded:
  "((\<forall>b\<in>set batch. int (rowIndex b) \<noteq> row_index r) \<longrightarrow>
      applyResult src headers batch st r = st)
   \<and> foldl (applyResult src headers batch) st rs =
       foldl (applyResult src headers batch) st
         (filter (\<lambda>r. \<exists>b\<in>set batch. int (rowIndex b) = row_index r) rs)
   \<and> applyResults src headers batch st (map Some rs) =
       (None, foldl (applyResult src headers batch) st rs)
   \<and> applyResults src headers batch st rows =
       applyResults src headers batch st
         (filter (\<lambda>x. case x of None \<Rightarrow> True
                       | Some r \<Rightarrow> \<exists>b\<in>set batch. int (rowIndex b) = row_index r) rows)
   \<and> (batchOutcome be headers batch = Inr (RowList (map Some rs)) \<longrightarrow>
       dest (processBatch be src headers n bi batch st) =
         dest st @ map (buildNewRow headers)
                     (filter (\<lambda>r. \<exists>b\<in>set batch. int (rowIndex b) = row_index r) rs))"
proof -
  have 1: "(\<forall>b\<in>set batch. int (rowIndex b) \<noteq> row_index r) \<longrightarrow>
      applyResult src headers batch st r = st"
    using applyResult_unmatched[of batch r src headers st] by (auto simp: matchesBatch_def)
  have 2: "foldl (applyResult src headers batch) st rs =
       foldl (applyResult src headers batch) st
         (filter (\<lambda>r. \<exists>b\<in>set batch. int (rowIndex b) = row_index r) rs)"
    using foldl_applyResult_filter[of src headers batch st rs] by (simp only: matchesBatch_eq)
  have 3: "applyResults src headers batch st (map Some rs) =
       (None, foldl (applyResult src headers batch) st rs)"
    by (rule applyResults_map_Some)
  have 4: "applyResults src headers batch st rows =
       applyResults src headers batch st
         (filter (\<lambda>x. case x of None \<Rightarrow> True
                       | Some r \<Rightarrow> \<exists>b\<in>set batch. int (rowIndex b) = row_index r) rows)"
    using applyResults_filter[of src headers batch st rows] by (simp only: matchesBatch_def)
  have 5: "batchOutcome be headers batch = Inr (RowList (map Some rs)) \<longrightarrow>
       dest (processBatch be src headers n bi batch st) =
         dest st @ map (buildNewRow headers)
                     (filter (\<lambda>r. \<exists>b\<in>set batch. int (rowIndex b) = row_index r) rs)"
    by (simp add: dest_processBatch_cases appliedRows_map_Some matchesBatch_eq)
  show ?thesis using 1 2 3 4 5 by blast
qed

theorem unmatched_results_discarded_witness:
  "applyResult [] [''No'', ''Title'', ''Comment''] exBatch initialState
     \<lparr>row_index = 99, row_fields = [(''Title'', ''Z'')]\<rparr> = initialState"
proof -
  have u: "\<forall>b\<in>set exBatch. int (rowIndex b) \<noteq> row_index \<lparr>row_index = 99, row_fields = [(''Title'', ''Z'')]\<rparr>"
    by (simp add: exBatch_def)
  then show ?thesis
    using unmatched_results_discarded[of exBatch "\<lparr>row_index = 99, row_fields = [(''Title'', ''Z'')]\<rparr>"
      "[]" "[''No'', ''Title'', ''Comment'']" initialState]
    by blast
qed

text \<open>
  Claim C2, as stated, fails: for a returned row that matches row 3 of the batch and has
  no field \<open>No\<close>, the revised row has the empty string in column \<open>No\<close>, where the source
  row has \<open>2\<close>.
\<close>

theorem missing_field_gives_empty_cell:
  "matchesBatch exBatch \<lparr>row_index = 3, row_fields = [(''Title'', ''Draft B!!'')]\<rparr>
   \<and> map_of (row_fields \<lparr>row_index = 3, row_fields = [(''Title'', ''Draft B!!'')]\<rparr>) ''No'' = None
   \<and> row (hd exBatch) ! 0 = ''2''
   \<and> dest (applyResult [] [''No'', ''Title'', ''Comment''] exBatch initialState
        \<lparr>row_index = 3, row_fields = [(''Title'', ''Draft B!!'')]\<rparr>)
      = [[[], ''Draft B!!'', []]]"
  by (simp add: matchesBatch_def exBatch_def dest_applyResult initialState_def buildNewRow_def
      getField_def trim_def isWhiteSpace_def)

text \<open>
  Claim C2, amended. For every returned row that matches a row of the batch, the script
  appends one revised row with one cell for every header column, the comment column
  included; for a header name without surrounding white space that is neither
  \<open>row_index\<close> nor the name of a property every object inherits, the cell is the value
  of the returned field of that name when the field is present, and the empty string
  otherwise.
\<close>

theorem revised_row_cells:
  assumes "matchesBatch batch r"
  shows "\<exists>newRow. dest (applyResult src headers batch st r) = dest st @ [newRow]
     \<and> length newRow = length headers
     \<and> (\<forall>c<length headers.
           trim (headers ! c) = headers ! c \<and> headers ! c \<noteq> ''row_index''
           \<and> headers ! c \<notin> set objectPrototypeKeys \<longrightarrow>
           newRow ! c = (case map_of (row_fields r) (headers ! c) of
                           Some v \<Rightarrow> v | None \<Rightarrow> []))"
proof -
  have "dest (applyResult src headers batch st r) = dest st @ [buildNewRow headers r]"
    using assms by (simp add: dest_applyResult)
  moreover have "length (buildNewRow headers r) = length headers"
    by (simp add: buildNewRow_def)
  moreover have "\<forall>c<length headers.
           trim (headers ! c) = headers ! c \<and> headers ! c \<noteq> ''row_index''
           \<and> headers ! c \<notin> set objectPrototypeKeys \<longrightarrow>
           buildNewRow headers r ! c = (case map_of (row_fields r) (headers ! c) of
                           Some v \<Rightarrow> v | None \<Rightarrow> [])"
    by (simp add: buildNewRow_def getField_def)
  ultimately show ?thesis by blast
qed

theorem revised_row_cells_witness:
  "\<exists>newRow. dest (applyResult [] [''No'', ''Title'', ''Comment''] exBatch initialState
        \<lparr>row_index = 3, row_fields = [(''Title'', ''Draft B!!'')]\<rparr>) = dest initialState @ [newRow]
     \<and> length newRow = 3
     \<and> newRow ! 0 = [] \<and> newRow ! 1 = ''Draft B!!''"
proof -
  let ?r = "\<lparr>row_index = 3, row_fields = [(''Title'', ''Draft B!!'')]\<rparr>"
  let ?h = "[''No'', ''Title'', ''Comment'']"
  have m: "matchesBatch exBatch ?r" by (simp add: matchesBatch_def exBatch_def)
  from revised_row_cells[OF m, of "[]" ?h initialState]
  obtain newRow where n: "dest (applyResult [] ?h exBatch initialState ?r) = dest initialState @ [newRow]"
    "length newRow = length ?h"
    "\<forall>c<length ?h. trim (?h ! c) = ?h ! c \<and> ?h ! c \<noteq> ''row_index''
           \<and> ?h ! c \<notin> set objectPrototypeKeys \<longrightarrow>
           newRow ! c = (case map_of (row_fields ?r) (?h ! c) of Some v \<Rightarrow> v | None \<Rightarrow> [])"
    by blast
  have t: "trim ''No'' = ''No''" "trim ''Title'' = ''Title''"
    by (simp_all add: trim_def isWhiteSpace_def)
  have k: "''No'' \<notin> set objectPrototypeKeys" "''Title'' \<notin> set objectPrototypeKeys"
    by (simp_all add: objectPrototypeKeys_def)
  have "newRow ! 0 = []" using n(3)[rule_format, of 0] t k by simp
  moreover have "newRow ! 1 = ''Draft B!!''" using n(3)[rule_format, of 1] t k by simp
  ultimately show ?thesis using n(1,2) by auto
qed

end
